theory Spec2Isabelle
  imports Complex_Main
begin

section \<open>JavaScript values and thrown errors\<close>

text \<open>
  The values that \<open>serializeArg(arg: unknown)\<close> can be handed. A number is an IEEE
  double; the code below never computes with one, it only passes it on and tests its
  truthiness, so a number is kept as its class (NaN, an infinity, negative zero) or its
  real value. An \<open>Error\<close> instance is kept with the three properties every instance has.
  An object that is not an \<open>Error\<close> instance (a plain object, an array, a boxed
  primitive) is kept as the outcome of its string conversion, \<open>None\<close> when that
  conversion throws (an object without a prototype); a function as its source text; a
  symbol as its description.
\<close>

datatype number = NaN | PosInfinity | NegInfinity | NegZero | Finite real

record error_object =
  message :: string
  stack :: "string option"
  name :: string

datatype jsval =
    JUndefined
  | JNull
  | JString string
  | JNumber number
  | JBoolean bool
  | JError error_object
  | JObject "string option"
  | JFunction string
  | JSymbol string
  | JBigInt int

text \<open>What this code throws itself: \<open>new Error(message)\<close>, or a \<open>TypeError\<close> of the runtime.\<close>

datatype js_exn = JsError string | JsTypeError string

fun typeof :: "jsval \<Rightarrow> string" where
  "typeof JUndefined = ''undefined''"
| "typeof JNull = ''object''"
| "typeof (JString _) = ''string''"
| "typeof (JNumber _) = ''number''"
| "typeof (JBoolean _) = ''boolean''"
| "typeof (JError _) = ''object''"
| "typeof (JObject _) = ''object''"
| "typeof (JFunction _) = ''function''"
| "typeof (JSymbol _) = ''symbol''"
| "typeof (JBigInt _) = ''bigint''"

fun instanceof_Error :: "jsval \<Rightarrow> bool" where
  "instanceof_Error (JError _) = True"
| "instanceof_Error _ = False"

subsection \<open>Decimal text of an integer\<close>

definition digit_char :: "nat \<Rightarrow> char" where
  "digit_char d = ''0123456789'' ! d"

fun string_of_nat :: "nat \<Rightarrow> string" where
  "string_of_nat n = (if n < 10 then [digit_char n] else string_of_nat (n div 10) @ [digit_char (n mod 10)])"

declare string_of_nat.simps [simp del]

definition string_of_int :: "int \<Rightarrow> string" where
  "string_of_int i = (if i < 0 then CHR ''-'' # string_of_nat (nat (- i)) else string_of_nat (nat i))"

text \<open>
  The string conversion that a template literal \<open>`${arg}`\<close> applies. It throws a
  \<open>TypeError\<close> on a symbol and on an object that cannot be converted. Only the values
  that reach the \<open>throw\<close> of \<open>serializeArg\<close> are converted there, and a number never
  does, so the text of a number is left out.
\<close>

fun ToString :: "jsval \<Rightarrow> js_exn + string" where
  "ToString JUndefined = Inr ''undefined''"
| "ToString JNull = Inr ''null''"
| "ToString (JString s) = Inr s"
| "ToString (JBoolean b) = Inr (if b then ''true'' else ''false'')"
| "ToString (JError e) = Inr (if message e = [] then name e else name e @ '': '' @ message e)"
| "ToString (JObject None) = Inl (JsTypeError ''Cannot convert object to primitive value'')"
| "ToString (JObject (Some s)) = Inr s"
| "ToString (JFunction src) = Inr src"
| "ToString (JSymbol d) = Inl (JsTypeError ''Cannot convert a Symbol value to a string'')"
| "ToString (JBigInt i) = Inr (string_of_int i)"

section \<open>Argument codec\<close>

text \<open>
  Modelled from the spec: the declarations \<open>ISubprocessApiCallArg\<close>,
  \<open>ISerializedErrorValue\<close> and the enum \<open>SupportedSerializableArgType\<close> are in
  \<open>SubprocessCommunication\<close>, which is not among the sources. A serialized argument is
  a tagged union over Undefined, Null, Primitive (with its value) and Error (with message
  and optional stack); \<open>ArgUnrecognised t\<close> is an argument whose \<open>type\<close> is none of the
  four tags, \<open>t\<close> being the text of that tag.
\<close>

record ISerializedErrorValue =
  errorMessage :: string
  errorStack :: "string option"

datatype ISubprocessApiCallArg =
    ArgUndefined
  | ArgNull
  | ArgPrimitive jsval
  | ArgError ISerializedErrorValue
  | ArgUnrecognised string

definition UnsupportedArgumentType :: "string \<Rightarrow> js_exn" where
  "UnsupportedArgumentType shown =
     JsError (''Argument ('' @ shown @ '') is not supported in subprocess communication.'')"

definition UnknownArgumentTag :: "string \<Rightarrow> js_exn" where
  "UnknownArgumentTag t = JsError (''Unexpected arg type '' @ [CHR 0x22] @ t @ [CHR 0x22] @ ''.'')"

text \<open>
  \<open>serializeArg\<close>: the two identity tests, then the \<open>switch (typeof arg)\<close>; a branch that
  does not return falls through to the \<open>throw\<close>, whose message interpolates \<open>arg\<close>.
\<close>

definition serializeArg :: "jsval \<Rightarrow> js_exn + ISubprocessApiCallArg" where
  "serializeArg arg =
     (if arg = JUndefined then Inr ArgUndefined
      else if arg = JNull then Inr ArgNull
      else if typeof arg = ''object'' \<and> instanceof_Error arg then
        (case arg of JError e \<Rightarrow> Inr (ArgError \<lparr>errorMessage = message e, errorStack = stack e\<rparr>))
      else if typeof arg = ''string'' \<or> typeof arg = ''number'' \<or> typeof arg = ''boolean'' then
        Inr (ArgPrimitive arg)
      else
        (case ToString arg of
           Inl thrown \<Rightarrow> Inl thrown
         | Inr shown \<Rightarrow> Inl (UnsupportedArgumentType shown)))"

text \<open>
  \<open>deserializeArg\<close>: the \<open>switch (arg.type)\<close>. The \<open>Error\<close> case builds
  \<open>new Error(errorMessage)\<close>, an instance of the base class, and then assigns
  \<open>stack\<close>, which replaces the stack that the constructor captured.
\<close>

definition deserializeArg :: "ISubprocessApiCallArg \<Rightarrow> js_exn + jsval" where
  "deserializeArg arg =
     (case arg of
        ArgUndefined \<Rightarrow> Inr JUndefined
      | ArgNull \<Rightarrow> Inr JNull
      | ArgError v \<Rightarrow>
          Inr (JError \<lparr>message = errorMessage v, stack = errorStack v, name = ''Error''\<rparr>)
      | ArgPrimitive v \<Rightarrow> Inr v
      | ArgUnrecognised t \<Rightarrow> Inl (UnknownArgumentTag t))"

text \<open>The composition that the round-trip law is about; a failure of either half is kept.\<close>

definition roundtrip :: "jsval \<Rightarrow> js_exn + jsval" where
  "roundtrip x = (case serializeArg x of Inl thrown \<Rightarrow> Inl thrown | Inr a \<Rightarrow> deserializeArg a)"

text \<open>
  The supported shapes in the spec's words: undefined, null, a string, a number, a
  boolean, or an \<open>Error\<close> instance.
\<close>

definition supported :: "jsval \<Rightarrow> bool" where
  "supported x =
     (case x of JUndefined \<Rightarrow> True | JNull \<Rightarrow> True | JString _ \<Rightarrow> True | JNumber _ \<Rightarrow> True
      | JBoolean _ \<Rightarrow> True | JError _ \<Rightarrow> True | _ \<Rightarrow> False)"

section \<open>Messages and communication managers\<close>

text \<open>
  A message is an object with a \<open>type\<close> string and further fields that only its owner
  reads: the record's extension part. The \<open>error\<close> field is that of
  \<open>ISubprocessExitMessage\<close>, to which the parent's handler casts a message of type
  \<open>exit\<close>; it is \<open>None\<close> on an object that has no such field.
\<close>

record ISubprocessMessageBase =
  type :: string
  error :: "ISubprocessApiCallArg option"

text \<open>
  A \<open>void\<close> method that may throw: it returns what it threw, if anything, and the state
  it left behind.
\<close>

type_synonym 'w effect = "'w \<Rightarrow> js_exn option \<times> 'w"

text \<open>
  Modelled from the spec: the class \<open>SubprocessCommunicationManagerBase\<close> is not among
  the sources. A manager honours a four-method contract: two pure predicates that tell
  whether it handles a message from the parent or from the subprocess, and two
  side-effecting handlers. \<open>'w\<close> is the state the handlers act on.
\<close>

record ('p, 'w) SubprocessCommunicationManagerBase =
  canHandleMessageFromParentProcess :: "'p ISubprocessMessageBase_scheme \<Rightarrow> bool"
  receiveMessageFromParentProcess :: "'p ISubprocessMessageBase_scheme \<Rightarrow> 'w effect"
  canHandleMessageFromSubprocess :: "'p ISubprocessMessageBase_scheme \<Rightarrow> bool"
  receiveMessageFromSubprocess :: "'p ISubprocessMessageBase_scheme \<Rightarrow> 'w effect"

definition quoted :: "string \<Rightarrow> string" where
  "quoted s = [CHR 0x22] @ s @ [CHR 0x22]"

definition UnroutableMessage :: "string \<Rightarrow> string \<Rightarrow> js_exn" where
  "UnroutableMessage t origin =
     JsError (''Subprocess communication manager. No communication manager can handle message type ''
              @ quoted t @ '' from '' @ origin @ ''.'')"

text \<open>
  \<open>_receiveMessageFromParentProcess\<close> and \<open>_receiveMessageFromSubprocess\<close>: the
  \<open>for ... of\<close> loop over \<open>_subprocessCommunicationManagers\<close>, returning from inside
  the loop at the first manager that can handle the message, and the \<open>throw\<close> after it.
\<close>

fun runner_receiveMessageFromParentProcess ::
  "('p, 'w) SubprocessCommunicationManagerBase list \<Rightarrow> 'p ISubprocessMessageBase_scheme \<Rightarrow> 'w effect"
where
  "runner_receiveMessageFromParentProcess [] msg w =
     (Some (UnroutableMessage (type msg) ''parent process''), w)"
| "runner_receiveMessageFromParentProcess (manager # rest) msg w =
     (if canHandleMessageFromParentProcess manager msg
      then receiveMessageFromParentProcess manager msg w
      else runner_receiveMessageFromParentProcess rest msg w)"

fun runner_receiveMessageFromSubprocess ::
  "('p, 'w) SubprocessCommunicationManagerBase list \<Rightarrow> 'p ISubprocessMessageBase_scheme \<Rightarrow> 'w effect"
where
  "runner_receiveMessageFromSubprocess [] msg w =
     (Some (UnroutableMessage (type msg) ''subprocess''), w)"
| "runner_receiveMessageFromSubprocess (manager # rest) msg w =
     (if canHandleMessageFromSubprocess manager msg
      then receiveMessageFromSubprocess manager msg w
      else runner_receiveMessageFromSubprocess rest msg w)"

text \<open>The router, for either direction.\<close>

datatype direction = FromParent | FromWorker

definition canHandle ::
  "direction \<Rightarrow> ('p, 'w) SubprocessCommunicationManagerBase \<Rightarrow> 'p ISubprocessMessageBase_scheme \<Rightarrow> bool"
where
  "canHandle d manager =
     (case d of FromParent \<Rightarrow> canHandleMessageFromParentProcess manager
      | FromWorker \<Rightarrow> canHandleMessageFromSubprocess manager)"

definition handle ::
  "direction \<Rightarrow> ('p, 'w) SubprocessCommunicationManagerBase \<Rightarrow> 'p ISubprocessMessageBase_scheme \<Rightarrow> 'w effect"
where
  "handle d manager =
     (case d of FromParent \<Rightarrow> receiveMessageFromParentProcess manager
      | FromWorker \<Rightarrow> receiveMessageFromSubprocess manager)"

definition dispatch ::
  "direction \<Rightarrow> ('p, 'w) SubprocessCommunicationManagerBase list \<Rightarrow> 'p ISubprocessMessageBase_scheme \<Rightarrow> 'w effect"
where
  "dispatch d =
     (case d of FromParent \<Rightarrow> runner_receiveMessageFromParentProcess
      | FromWorker \<Rightarrow> runner_receiveMessageFromSubprocess)"

definition origin_text :: "direction \<Rightarrow> string" where
  "origin_text d = (case d of FromParent \<Rightarrow> ''parent process'' | FromWorker \<Rightarrow> ''subprocess'')"

section \<open>The parent side of \<open>invokeAsSubprocessAsync\<close>\<close>

text \<open>
  The two variables that the handlers close over, the promise that
  \<open>invokeAsSubprocessAsync\<close> returns, and the state of the managers.
\<close>

datatype settlement = Resolved | RejectedWith jsval | RejectedWithNew js_exn

record 'w parent_state =
  hasExited :: bool
  exitError :: jsval
  promise :: "settlement option"
  world :: 'w

definition initial_parent_state :: "'w \<Rightarrow> 'w parent_state" where
  "initial_parent_state w = \<lparr>hasExited = False, exitError = JUndefined, promise = None, world = w\<rparr>"

definition DuplicateExitMessage :: js_exn where
  "DuplicateExitMessage =
     JsError (''Subprocess communication error. Received a duplicate '' @ quoted ''exit'' @ '' message.'')"

definition MessageAfterExit :: js_exn where
  "MessageAfterExit =
     JsError (''Subprocess communication error. Received a message after the subprocess ''
              @ ''has indicated that it has exited'')"

definition WorkerExitedWithoutSignal :: js_exn where
  "WorkerExitedWithoutSignal =
     JsError (''Subprocess exited before sending '' @ quoted ''exit'' @ '' message.'')"

text \<open>The test of \<open>if (exitError)\<close>.\<close>

fun truthy :: "jsval \<Rightarrow> bool" where
  "truthy JUndefined = False"
| "truthy JNull = False"
| "truthy (JString s) = (s \<noteq> [])"
| "truthy (JNumber n) = (case n of NaN \<Rightarrow> False | NegZero \<Rightarrow> False | Finite r \<Rightarrow> r \<noteq> 0 | _ \<Rightarrow> True)"
| "truthy (JBoolean b) = b"
| "truthy (JBigInt i) = (i \<noteq> 0)"
| "truthy (JError _) = True"
| "truthy (JObject _) = True"
| "truthy (JFunction _) = True"
| "truthy (JSymbol _) = True"

text \<open>
  The \<open>message\<close> listener. \<open>hasExited\<close> is assigned before \<open>deserializeArg\<close> is
  called, so it stays assigned when that call throws; reading \<open>exitMessage.error.type\<close>
  on a message without an \<open>error\<close> field throws a \<open>TypeError\<close>.
\<close>

definition on_message ::
  "('p, 'w) SubprocessCommunicationManagerBase list \<Rightarrow> 'p ISubprocessMessageBase_scheme
     \<Rightarrow> 'w parent_state effect"
where
  "on_message managers msg s =
     (if type msg = ''exit'' then
        (if hasExited s then (Some DuplicateExitMessage, s)
         else
           (let s1 = s\<lparr>hasExited := True\<rparr> in
            case error msg of
              None \<Rightarrow> (Some (JsTypeError ''Cannot read properties of undefined''), s1)
            | Some carried \<Rightarrow>
                (case deserializeArg carried of
                   Inl thrown \<Rightarrow> (Some thrown, s1)
                 | Inr v \<Rightarrow> (None, s1\<lparr>exitError := v\<rparr>))))
      else
        (if hasExited s then (Some MessageAfterExit, s)
         else
           (case runner_receiveMessageFromSubprocess managers msg (world s) of
              (thrown, w') \<Rightarrow> (thrown, s\<lparr>world := w'\<rparr>))))"

text \<open>\<open>resolve\<close> and \<open>reject\<close> settle a promise once; on a settled promise they do nothing.\<close>

definition settle :: "settlement \<Rightarrow> 'w parent_state \<Rightarrow> 'w parent_state" where
  "settle outcome s = (case promise s of None \<Rightarrow> s\<lparr>promise := Some outcome\<rparr> | Some _ \<Rightarrow> s)"

text \<open>The \<open>close\<close> listener.\<close>

definition on_close :: "'w parent_state \<Rightarrow> 'w parent_state" where
  "on_close s =
     (if truthy (exitError s) then settle (RejectedWith (exitError s)) s
      else if \<not> hasExited s then settle (RejectedWithNew WorkerExitedWithoutSignal) s
      else settle Resolved s)"

text \<open>
  What the child process emits, in order. Each event runs its listener; what a listener
  throws is recorded per event.
\<close>

datatype 'p subprocess_event = MessageEvent "'p ISubprocessMessageBase_scheme" | CloseEvent

fun emit ::
  "('p, 'w) SubprocessCommunicationManagerBase list \<Rightarrow> 'p subprocess_event \<Rightarrow> 'w parent_state effect"
where
  "emit managers (MessageEvent msg) s = on_message managers msg s"
| "emit managers CloseEvent s = (None, on_close s)"

fun emit_all ::
  "('p, 'w) SubprocessCommunicationManagerBase list \<Rightarrow> 'p subprocess_event list
     \<Rightarrow> 'w parent_state \<Rightarrow> js_exn option list \<times> 'w parent_state"
where
  "emit_all managers [] s = ([], s)"
| "emit_all managers (e # es) s =
     (case emit managers e s of
        (thrown, s') \<Rightarrow> (case emit_all managers es s' of (rest, s'') \<Rightarrow> (thrown # rest, s'')))"

text \<open>The promise of \<open>invokeAsSubprocessAsync\<close> after the child emitted the given events.\<close>

definition invokeAsSubprocessAsync ::
  "('p, 'w) SubprocessCommunicationManagerBase list \<Rightarrow> 'w \<Rightarrow> 'p subprocess_event list
     \<Rightarrow> settlement option"
where
  "invokeAsSubprocessAsync managers w events =
     promise (snd (emit_all managers events (initial_parent_state w)))"

text \<open>
  A concrete manager for runs on concrete inputs: it owns one message type, and on
  receiving a message it appends its own number to a log.
\<close>

definition logging_manager :: "string \<Rightarrow> nat \<Rightarrow> (unit, nat list) SubprocessCommunicationManagerBase" where
  "logging_manager owned k =
     \<lparr>canHandleMessageFromParentProcess = (\<lambda>msg. type msg = owned),
      receiveMessageFromParentProcess = (\<lambda>msg w. (None, w @ [k])),
      canHandleMessageFromSubprocess = (\<lambda>msg. type msg = owned),
      receiveMessageFromSubprocess = (\<lambda>msg w. (None, w @ [k]))\<rparr>"

section \<open>The worker bootstrap\<close>

text \<open>
  What the bootstrap and the work do to the \<open>process\<close> object, in order: a listener
  is added, all listeners are removed, a message is sent to the parent.
\<close>

datatype process_action = On string | RemoveAllListeners | Send ISubprocessMessageBase

text \<open>
  \<open>invokeAsync\<close> is abstract. A run of it is how it ends and what it did to
  \<open>process\<close> meanwhile. It can throw before it returns a promise, the promise can
  reject, and JavaScript lets either carry any value; the promise can also stay pending.
\<close>

datatype invoke_outcome =
    Returns
  | ThrowsSynchronously jsval
  | RejectsAsynchronously jsval
  | NeverSettles

record invoke_run =
  outcome :: invoke_outcome
  performed :: "process_action list"

datatype promise_state = Pending | Fulfilled | RejectedBy js_exn

text \<open>
  \<open>[SUBPROCESS_RUNNER_INNER_INVOKE]\<close>: the listener, then \<open>try\<close>/\<open>catch\<close> around
  the awaited call, then the \<open>finally\<close> block, which runs once the call has settled.
  An exception of \<open>serializeArg\<close> inside \<open>finally\<close> leaves the block before
  \<open>process.send\<close> and rejects the promise of the bootstrap.
\<close>

definition SUBPROCESS_RUNNER_INNER_INVOKE :: "invoke_run \<Rightarrow> promise_state \<times> process_action list" where
  "SUBPROCESS_RUNNER_INNER_INVOKE work =
     (let started = On ''message'' # performed work in
      case outcome work of
        NeverSettles \<Rightarrow> (Pending, started)
      | settled \<Rightarrow>
          (let caught = (case settled of ThrowsSynchronously e \<Rightarrow> e
                         | RejectsAsynchronously e \<Rightarrow> e | _ \<Rightarrow> JUndefined);
               cleaned = started @ [RemoveAllListeners]
           in case serializeArg caught of
                Inl thrown \<Rightarrow> (RejectedBy thrown, cleaned)
              | Inr carried \<Rightarrow>
                  (Fulfilled, cleaned @ [Send \<lparr>type = ''exit'', error = Some carried\<rparr>])))"

text \<open>The value that the \<open>catch\<close> clause binds, if the run ends in one.\<close>

fun caught_error :: "invoke_outcome \<Rightarrow> jsval option" where
  "caught_error (ThrowsSynchronously e) = Some e"
| "caught_error (RejectsAsynchronously e) = Some e"
| "caught_error _ = None"

section \<open>Node arguments of the child\<close>

text \<open>
  The static counter, the string arrays that exist (a reference is an index into the
  store, and \<open>[...nodeArgs]\<close> allocates a new one at its end), and the lines written to
  the terminal. The counter is a JavaScript number that holds an integer, kept here as
  that integer.
\<close>

record launch_state =
  subprocessInspectorPort :: nat
  arrays :: "string list list"
  terminal :: "string list"

definition initial_subprocessInspectorPort :: nat where
  "initial_subprocessInspectorPort = 9229 + 1"

text \<open>
  The value that \<open>_subprocessInspectorPort++\<close> stores: the sum with one, rounded to
  the nearest double, ties to the even significand. Below \<open>2^53\<close> the sum is exact.
  From \<open>2^53\<close> to \<open>2^54\<close> the doubles are the even integers and the sum lies half
  way between two of them; from \<open>2^54\<close> on the doubles are at least four apart and
  the sum rounds back. So a counter that has reached \<open>2^53\<close> stays there.
\<close>

definition increment_number :: "nat \<Rightarrow> nat" where
  "increment_number c =
     (if c < 2 ^ 53 then c + 1
      else if c < 2 ^ 54 then (if even (c div 2) then c else c + 2)
      else c)"

text \<open>\<open>nodeArgs[i].split('=')\<close> destructured to its first element.\<close>

definition firstNodeArgPart :: "string \<Rightarrow> string" where
  "firstNodeArgPart a = takeWhile (\<lambda>c. c \<noteq> CHR ''='') a"

text \<open>The \<open>for\<close> loop, writing through the reference \<open>nodeArgs\<close> into the store.\<close>

function processNodeArgs_loop ::
  "nat \<Rightarrow> nat \<Rightarrow> nat \<Rightarrow> bool \<Rightarrow> string list list \<Rightarrow> string list list \<times> bool"
where
  "processNodeArgs_loop nodeArgs inspectPort i willUseInspector store =
     (if i < length (store ! nodeArgs) then
        (let part = firstNodeArgPart (store ! nodeArgs ! i) in
         if part = ''--inspect'' \<or> part = ''--inspect-brk'' then
           processNodeArgs_loop nodeArgs inspectPort (i + 1) True
             (store[nodeArgs := (store ! nodeArgs)[i := part @ ''='' @ string_of_nat inspectPort]])
         else processNodeArgs_loop nodeArgs inspectPort (i + 1) willUseInspector store)
      else (store, willUseInspector))"
  by pat_completeness auto
termination
proof (relation "measure (\<lambda>(nodeArgs, inspectPort, i, willUseInspector, store). length (store ! nodeArgs) - i)")
  show "wf (measure (\<lambda>(nodeArgs, inspectPort, i, willUseInspector, store). length (store ! nodeArgs) - i))"
    by simp
next
  fix nodeArgs inspectPort i :: nat and willUseInspector :: bool and store :: "string list list" and part
  assume "i < length (store ! nodeArgs)"
  then show "((nodeArgs, inspectPort, i + 1, True,
               store[nodeArgs := (store ! nodeArgs)[i := part @ ''='' @ string_of_nat inspectPort]]),
              (nodeArgs, inspectPort, i, willUseInspector, store))
             \<in> measure (\<lambda>(nodeArgs, inspectPort, i, willUseInspector, store). length (store ! nodeArgs) - i)"
    by (cases "nodeArgs < length store") (auto simp: list_update_beyond)
next
  fix nodeArgs inspectPort i :: nat and willUseInspector :: bool and store :: "string list list"
  assume "i < length (store ! nodeArgs)"
  then show "((nodeArgs, inspectPort, i + 1, willUseInspector, store),
              (nodeArgs, inspectPort, i, willUseInspector, store))
             \<in> measure (\<lambda>(nodeArgs, inspectPort, i, willUseInspector, store). length (store ! nodeArgs) - i)"
    by auto
qed

declare processNodeArgs_loop.simps [simp del]

text \<open>
  \<open>_processNodeArgsForSubprocess\<close>: clone, take the port and move the counter, rewrite
  the clone, report the port if it was used, return the clone.
\<close>

definition processNodeArgsForSubprocess :: "nat \<Rightarrow> launch_state \<Rightarrow> nat \<times> launch_state" where
  "processNodeArgsForSubprocess nodeArgs s =
     (let clone = length (arrays s);
          s1 = s\<lparr>arrays := arrays s @ [arrays s ! nodeArgs]\<rparr>;
          inspectPort = subprocessInspectorPort s1;
          s2 = s1\<lparr>subprocessInspectorPort := increment_number inspectPort\<rparr>
      in case processNodeArgs_loop clone inspectPort 0 False (arrays s2) of
           (store, willUseInspector) \<Rightarrow>
             (let s3 = s2\<lparr>arrays := store\<rparr>;
                  s4 = (if willUseInspector
                        then s3\<lparr>terminal := terminal s3 @
                                 [''Subprocess with inspector bound to port '' @ string_of_nat inspectPort]\<rparr>
                        else s3)
              in (clone, s4)))"

text \<open>
  Successive launches, each handing over the array at the given reference (for
  \<open>invokeAsSubprocessAsync\<close> that is \<open>process.execArgv\<close>); the result is the
  reference each child was given as its \<open>execArgv\<close>.
\<close>

fun launches :: "nat list \<Rightarrow> launch_state \<Rightarrow> nat list \<times> launch_state" where
  "launches [] s = ([], s)"
| "launches (nodeArgs # rest) s =
     (case processNodeArgsForSubprocess nodeArgs s of
        (r, s') \<Rightarrow> (case launches rest s' of (rs, s'') \<Rightarrow> (r # rs, s'')))"

text \<open>
  The spec's words for the rewriting: an \<open>--inspect\<close> or \<open>--inspect-brk\<close> flag, with or
  without a suffix that starts with \<open>=\<close>, gets the allocated port; any other argument
  stays as it is.
\<close>

definition is_flag :: "string \<Rightarrow> string \<Rightarrow> bool" where
  "is_flag flag a = (a = flag \<or> take (length flag + 1) a = flag @ ''='')"

definition rewritten :: "nat \<Rightarrow> string \<Rightarrow> string" where
  "rewritten port a =
     (if is_flag ''--inspect'' a then ''--inspect='' @ string_of_nat port
      else if is_flag ''--inspect-brk'' a then ''--inspect-brk='' @ string_of_nat port
      else a)"

section \<open>The string-buffer terminal provider\<close>

text \<open>
  Modelled from the spec: the enum \<open>Severity\<close> of \<open>ITerminalProvider\<close> and the class
  \<open>StringBuilder\<close> are not among the sources. The provider names three severities;
  \<open>SeverityOther\<close> is any further value. A string builder collects the chunks appended
  to it and \<open>toString\<close> joins them.
\<close>

datatype Severity = SeverityLog | SeverityWarn | SeverityError | SeverityOther nat

type_synonym StringBuilder = "string list"

definition append :: "string \<Rightarrow> StringBuilder \<Rightarrow> StringBuilder" where
  "append text chunks = chunks @ [text]"

definition toString :: "StringBuilder \<Rightarrow> string" where
  "toString chunks = concat chunks"

record StringBufferTerminalProvider =
  standardBuffer :: StringBuilder
  warningBuffer :: StringBuilder
  errorBuffer :: StringBuilder
  supportsColor :: bool

definition new_StringBufferTerminalProvider :: "bool \<Rightarrow> StringBufferTerminalProvider" where
  "new_StringBufferTerminalProvider color =
     \<lparr>standardBuffer = [], warningBuffer = [], errorBuffer = [], supportsColor = color\<rparr>"

text \<open>\<open>write(data, severity)\<close>.\<close>

definition provider_write :: "string \<Rightarrow> Severity \<Rightarrow> StringBufferTerminalProvider \<Rightarrow> StringBufferTerminalProvider" where
  "provider_write data severity this =
     (case severity of
        SeverityWarn \<Rightarrow> this\<lparr>warningBuffer := append data (warningBuffer this)\<rparr>
      | SeverityError \<Rightarrow> this\<lparr>errorBuffer := append data (errorBuffer this)\<rparr>
      | _ \<Rightarrow> this\<lparr>standardBuffer := append data (standardBuffer this)\<rparr>)"

text \<open>\<open>s.replace(/c/g, r)\<close> for a single character \<open>c\<close>.\<close>

fun replace_all :: "char \<Rightarrow> string \<Rightarrow> string \<Rightarrow> string" where
  "replace_all c r [] = []"
| "replace_all c r (x # xs) = (if x = c then r @ replace_all c r xs else x # replace_all c r xs)"

definition normalizeOutput :: "string \<Rightarrow> string" where
  "normalizeOutput s =
     replace_all (CHR 0x0D) ''[r]'' (replace_all (CHR 0x0A) ''[n]'' (replace_all (CHR 0x1B) ''[x]'' s))"

definition getOutput :: "StringBufferTerminalProvider \<Rightarrow> string" where
  "getOutput this = normalizeOutput (toString (standardBuffer this))"

definition getErrorOutput :: "StringBufferTerminalProvider \<Rightarrow> string" where
  "getErrorOutput this = normalizeOutput (toString (errorBuffer this))"

definition getWarningOutput :: "StringBufferTerminalProvider \<Rightarrow> string" where
  "getWarningOutput this = normalizeOutput (toString (warningBuffer this))"

text \<open>The replacement in one pass, as the claim words it.\<close>

definition escape_char :: "char \<Rightarrow> string" where
  "escape_char c =
     (if c = CHR 0x1B then ''[x]'' else if c = CHR 0x0A then ''[n]''
      else if c = CHR 0x0D then ''[r]'' else [c])"

section \<open>Properties of the argument codec\<close>

lemma serializeArg_supported:
  "supported x \<Longrightarrow> \<exists>a. serializeArg x = Inr a"
  by (cases x) (simp_all add: supported_def serializeArg_def)

lemma serializeArg_fails_iff_unsupported:
  "(\<exists>thrown. serializeArg x = Inl thrown) \<longleftrightarrow> \<not> supported x"
  by (cases x) (auto simp add: supported_def serializeArg_def split: sum.splits)

lemma serializeArg_unsupported_shown:
  "\<not> supported x \<Longrightarrow> ToString x = Inr shown \<Longrightarrow> serializeArg x = Inl (UnsupportedArgumentType shown)"
  by (cases x) (auto simp add: supported_def serializeArg_def)

lemma deserializeArg_fails_iff_unrecognised:
  "deserializeArg a = Inl thrown \<longleftrightarrow> (\<exists>t. a = ArgUnrecognised t \<and> thrown = UnknownArgumentTag t)"
  by (cases a) (auto simp add: deserializeArg_def)

text \<open>
  Claim C6. For every value of a supported shape (undefined, null, a string, a number, a
  boolean, or an \<open>Error\<close> with or without a stack), \<open>deserializeArg(serializeArg(x))\<close>
  succeeds; it returns \<open>x\<close> itself when \<open>x\<close> is undefined, null or a primitive, and an
  \<open>Error\<close> with the message and the stack of \<open>x\<close> when \<open>x\<close> is an \<open>Error\<close>.
\<close>

theorem roundtrip_supported:
  assumes "supported x"
  shows "case x of
           JError e \<Rightarrow> (\<exists>e'. roundtrip x = Inr (JError e') \<and> message e' = message e \<and> stack e' = stack e)
         | _ \<Rightarrow> roundtrip x = Inr x"
  using assms
  by (cases x) (simp_all add: supported_def roundtrip_def serializeArg_def deserializeArg_def)

theorem roundtrip_supported_witness:
  "supported (JError \<lparr>message = ''boom'', stack = None, name = ''RangeError''\<rparr>)
   \<and> (\<exists>e'. roundtrip (JError \<lparr>message = ''boom'', stack = None, name = ''RangeError''\<rparr>) = Inr (JError e')
        \<and> message e' = ''boom'' \<and> stack e' = None)"
  using roundtrip_supported [of "JError \<lparr>message = ''boom'', stack = None, name = ''RangeError''\<rparr>"]
  by (simp add: supported_def)

text \<open>
  Claim C7. \<open>serializeArg\<close> applied to a symbol does not raise the error that names the
  unsupported argument: building that error's message converts the symbol to a string,
  which throws a \<open>TypeError\<close> first. (On every other unsupported value whose string
  conversion succeeds the error is raised, and the codec fails on no supported case: the
  lemmas above.)
\<close>

theorem serializeArg_symbol_throws_TypeError:
  "serializeArg (JSymbol ''tag'') = Inl (JsTypeError ''Cannot convert a Symbol value to a string'')
   \<and> serializeArg (JSymbol ''tag'') \<noteq> Inl (UnsupportedArgumentType ''Symbol(tag)'')"
  by (simp add: serializeArg_def UnsupportedArgumentType_def)

section \<open>Properties of the message router\<close>

lemma dispatch_find:
  "dispatch d managers msg w =
     (case find (\<lambda>m. canHandle d m msg) managers of
        None \<Rightarrow> (Some (UnroutableMessage (type msg) (origin_text d)), w)
      | Some m \<Rightarrow> handle d m msg w)"
  by (induction managers) (cases d; simp add: dispatch_def canHandle_def handle_def origin_text_def)+

text \<open>
  Claim C5. For either direction, the router walks the registered managers in
  registration order: its whole effect is the effect of the handler, for that direction,
  of the first manager whose can-handle predicate for that direction holds (so no other
  manager receives the message), and when no registered manager claims the message it
  changes nothing and raises the unroutable-message error that names the message's type.
\<close>

theorem dispatch_first_claiming_manager:
  "(\<forall>i < length managers.
      canHandle d (managers ! i) msg \<and> (\<forall>j < i. \<not> canHandle d (managers ! j) msg)
      \<longrightarrow> dispatch d managers msg w = handle d (managers ! i) msg w)
   \<and> ((\<forall>m \<in> set managers. \<not> canHandle d m msg)
      \<longrightarrow> dispatch d managers msg w = (Some (UnroutableMessage (type msg) (origin_text d)), w))"
proof (intro conjI allI impI)
  fix i
  assume i: "i < length managers"
    and first: "canHandle d (managers ! i) msg \<and> (\<forall>j<i. \<not> canHandle d (managers ! j) msg)"
  then have "find (\<lambda>m. canHandle d m msg) managers = Some (managers ! i)"
    by (auto simp: find_Some_iff)
  then show "dispatch d managers msg w = handle d (managers ! i) msg w"
    by (simp add: dispatch_find)
next
  assume "\<forall>m \<in> set managers. \<not> canHandle d m msg"
  then have "find (\<lambda>m. canHandle d m msg) managers = None"
    by (simp add: find_None_iff)
  then show "dispatch d managers msg w = (Some (UnroutableMessage (type msg) (origin_text d)), w)"
    by (simp add: dispatch_find)
qed

theorem dispatch_first_claiming_manager_witness:
  "(1::nat) < length [logging_manager ''terminal'' 0, logging_manager ''logger'' 1, logging_manager ''logger'' 2]
   \<and> canHandle FromWorker ([logging_manager ''terminal'' 0, logging_manager ''logger'' 1, logging_manager ''logger'' 2] ! 1)
        \<lparr>type = ''logger'', error = None\<rparr>
   \<and> dispatch FromWorker [logging_manager ''terminal'' 0, logging_manager ''logger'' 1, logging_manager ''logger'' 2]
        \<lparr>type = ''logger'', error = None\<rparr> [] = (None, [1])
   \<and> dispatch FromParent [logging_manager ''terminal'' 0, logging_manager ''logger'' 1, logging_manager ''logger'' 2]
        \<lparr>type = ''other'', error = None\<rparr> [] = (Some (UnroutableMessage ''other'' ''parent process''), [])"
  using dispatch_first_claiming_manager
      [of "[logging_manager ''terminal'' 0, logging_manager ''logger'' 1, logging_manager ''logger'' 2]"
          FromWorker "\<lparr>type = ''logger'', error = None\<rparr>" "[]"]
    dispatch_first_claiming_manager
      [of "[logging_manager ''terminal'' 0, logging_manager ''logger'' 1, logging_manager ''logger'' 2]"
          FromParent "\<lparr>type = ''other'', error = None\<rparr>" "[]"]
  by (simp add: logging_manager_def canHandle_def handle_def dispatch_def origin_text_def)

section \<open>Properties of the parent's listeners\<close>

lemma emit_all_Cons:
  "fst (emit_all M (e # es) s) = fst (emit M e s) # fst (emit_all M es (snd (emit M e s)))"
  "snd (emit_all M (e # es) s) = snd (emit_all M es (snd (emit M e s)))"
  by (simp_all add: case_prod_beta)

lemma emit_all_append:
  "fst (emit_all M (xs @ ys) s) = fst (emit_all M xs s) @ fst (emit_all M ys (snd (emit_all M xs s)))"
  "snd (emit_all M (xs @ ys) s) = snd (emit_all M ys (snd (emit_all M xs s)))"
  by (induction xs arbitrary: s) (simp_all add: emit_all_Cons del: emit_all.simps(2))

lemma length_emit_all: "length (fst (emit_all M es s)) = length es"
  by (induction es arbitrary: s) (simp_all add: emit_all_Cons del: emit_all.simps(2))

lemma nth_emit_all:
  "j < length es \<Longrightarrow>
   fst (emit_all M es s) ! j = fst (emit M (es ! j) (snd (emit_all M (take j es) s)))"
proof (induction es arbitrary: s j)
  case Nil
  then show ?case by simp
next
  case (Cons e es)
  show ?case
  proof (cases j)
    case 0
    then show ?thesis by (simp add: emit_all_Cons del: emit_all.simps(2))
  next
    case (Suc k)
    with Cons.prems have "k < length es" by simp
    from Cons.IH [OF this] Suc show ?thesis by (simp add: emit_all_Cons del: emit_all.simps(2))
  qed
qed

lemma snd_emit_all_Suc:
  "j < length es \<Longrightarrow>
   snd (emit_all M (take (Suc j) es) s) = snd (emit M (es ! j) (snd (emit_all M (take j es) s)))"
proof (induction es arbitrary: s j)
  case Nil
  then show ?case by simp
next
  case (Cons e es)
  show ?case
  proof (cases j)
    case 0
    then show ?thesis by (simp add: emit_all_Cons del: emit_all.simps(2))
  next
    case (Suc k)
    with Cons.prems have "k < length es" by simp
    from Cons.IH [OF this] Suc show ?thesis by (simp add: emit_all_Cons del: emit_all.simps(2))
  qed
qed

lemma on_message_promise: "promise (snd (on_message M msg s)) = promise s"
  by (simp add: on_message_def Let_def split: option.splits sum.splits prod.splits)

lemma on_message_keeps_hasExited: "hasExited s \<Longrightarrow> hasExited (snd (on_message M msg s))"
  by (simp add: on_message_def)

lemma on_message_exit_sets_hasExited: "type msg = ''exit'' \<Longrightarrow> hasExited (snd (on_message M msg s))"
  by (simp add: on_message_def Let_def split: option.splits sum.splits)

lemma on_message_other_hasExited:
  "type msg \<noteq> ''exit'' \<Longrightarrow> hasExited (snd (on_message M msg s)) = hasExited s"
  by (simp add: on_message_def split: prod.splits)

lemma on_close_fields: "hasExited (on_close s) = hasExited s" "exitError (on_close s) = exitError s"
  "world (on_close s) = world s"
  by (simp_all add: on_close_def settle_def split: option.splits)

lemma emit_keeps_hasExited: "hasExited s \<Longrightarrow> hasExited (snd (emit M e s))"
  by (cases e) (simp_all add: on_message_keeps_hasExited on_close_fields)

lemma emit_all_keeps_hasExited: "hasExited s \<Longrightarrow> hasExited (snd (emit_all M es s))"
proof (induction es arbitrary: s)
  case Nil
  then show ?case by simp
next
  case (Cons e es)
  from Cons.IH [OF emit_keeps_hasExited [OF Cons.prems, of M e]]
  show ?case by (simp add: emit_all_Cons del: emit_all.simps(2))
qed

lemma hasExited_after_exit:
  assumes "i < j" "j \<le> length es" "es ! i = MessageEvent m1" "type m1 = ''exit''"
  shows "hasExited (snd (emit_all M (take j es) s))"
proof -
  from assms have i: "i < length es" by simp
  have split: "take j es = take (Suc i) es @ drop (Suc i) (take j es)"
    using assms(1) by (metis Suc_leI append_take_drop_id min.absorb1 take_take)
  have "hasExited (snd (emit_all M (take (Suc i) es) s))"
    using assms(3,4) by (simp add: snd_emit_all_Suc [OF i] on_message_exit_sets_hasExited)
  then have "hasExited (snd (emit_all M (drop (Suc i) (take j es)) (snd (emit_all M (take (Suc i) es) s))))"
    by (rule emit_all_keeps_hasExited)
  then have "hasExited (snd (emit_all M (take (Suc i) es @ drop (Suc i) (take j es)) s))"
    by (simp add: emit_all_append)
  with split show ?thesis by simp
qed

lemma not_hasExited_before_exit:
  assumes "\<not> hasExited s" "\<forall>m \<in> set ms. type m \<noteq> ''exit''"
  shows "\<not> hasExited (snd (emit_all M (map MessageEvent ms) s))"
  using assms
proof (induction ms arbitrary: s)
  case Nil
  then show ?case by simp
next
  case (Cons m ms)
  then have "\<not> hasExited (snd (on_message M m s))"
    by (simp add: on_message_other_hasExited)
  from Cons.IH [OF this] Cons.prems(2) show ?case by (simp add: emit_all_Cons del: emit_all.simps(2))
qed

lemma emit_all_messages_promise:
  "promise (snd (emit_all M (map MessageEvent ms) s)) = promise s"
  by (induction ms arbitrary: s) (simp_all add: on_message_promise emit_all_Cons del: emit_all.simps(2))

lemma emit_settled: "promise s = Some x \<Longrightarrow> promise (snd (emit M e s)) = Some x"
  by (cases e) (simp_all add: on_message_promise on_close_def settle_def)

lemma emit_all_settled: "promise s = Some x \<Longrightarrow> promise (snd (emit_all M es s)) = Some x"
proof (induction es arbitrary: s)
  case Nil
  then show ?case by simp
next
  case (Cons e es)
  from Cons.IH [OF emit_settled [OF Cons.prems, of M e]]
  show ?case by (simp add: emit_all_Cons del: emit_all.simps(2))
qed

lemma on_close_unsettled:
  "promise s = None \<Longrightarrow>
   promise (on_close s) =
     Some (if truthy (exitError s) then RejectedWith (exitError s)
           else if \<not> hasExited s then RejectedWithNew WorkerExitedWithoutSignal
           else Resolved)"
  by (simp add: on_close_def settle_def)

text \<open>
  Claim C2, as amended. While the child emits only messages, the promise of
  \<open>invokeAsSubprocessAsync\<close> stays unsettled. When the \<open>close\<close> event fires, the
  promise rejects with the recorded completion error if the recorded value passes the
  test \<open>if (exitError)\<close>, as every \<open>Error\<close> does (\<open>Error | undefined\<close> is the declared
  type of the recorded value); otherwise it rejects with the worker-exited-without-signal
  error if \<open>hasExited\<close> is false; otherwise it resolves. Nothing emitted later changes
  that outcome, and a child that closes before any message rejects with the
  worker-exited-without-signal error.
\<close>

theorem close_settles_promise:
  "invokeAsSubprocessAsync M w (map MessageEvent ms) = None
   \<and> invokeAsSubprocessAsync M w (map MessageEvent ms @ CloseEvent # later) =
       Some (if truthy (exitError (snd (emit_all M (map MessageEvent ms) (initial_parent_state w))))
             then RejectedWith (exitError (snd (emit_all M (map MessageEvent ms) (initial_parent_state w))))
             else if \<not> hasExited (snd (emit_all M (map MessageEvent ms) (initial_parent_state w)))
             then RejectedWithNew WorkerExitedWithoutSignal
             else Resolved)
   \<and> invokeAsSubprocessAsync M w (CloseEvent # later) = Some (RejectedWithNew WorkerExitedWithoutSignal)"
proof (intro conjI)
  let ?s = "snd (emit_all M (map MessageEvent ms) (initial_parent_state w))"
  have unsettled: "promise ?s = None"
    by (simp add: emit_all_messages_promise initial_parent_state_def)
  then show "invokeAsSubprocessAsync M w (map MessageEvent ms) = None"
    by (simp add: invokeAsSubprocessAsync_def)
  have "promise (snd (emit_all M (CloseEvent # later) ?s)) = promise (on_close ?s)"
    using on_close_unsettled [OF unsettled] emit_all_settled [of "on_close ?s" _ M later]
    by (simp add: emit_all_Cons del: emit_all.simps(2))
  then show "invokeAsSubprocessAsync M w (map MessageEvent ms @ CloseEvent # later) =
       Some (if truthy (exitError ?s) then RejectedWith (exitError ?s)
             else if \<not> hasExited ?s then RejectedWithNew WorkerExitedWithoutSignal else Resolved)"
    using on_close_unsettled [OF unsettled]
    by (simp add: invokeAsSubprocessAsync_def emit_all_append)
  have init: "promise (initial_parent_state w) = None" by (simp add: initial_parent_state_def)
  have "promise (snd (emit_all M (CloseEvent # later) (initial_parent_state w)))
          = promise (on_close (initial_parent_state w))"
    using on_close_unsettled [OF init] emit_all_settled [of "on_close (initial_parent_state w)" _ M later]
    by (simp add: emit_all_Cons del: emit_all.simps(2))
  then show "invokeAsSubprocessAsync M w (CloseEvent # later) = Some (RejectedWithNew WorkerExitedWithoutSignal)"
    using on_close_unsettled [OF init]
    by (simp add: invokeAsSubprocessAsync_def initial_parent_state_def)
qed


theorem close_settles_promise_witness:
  "invokeAsSubprocessAsync [logging_manager ''log'' 0] []
     (map MessageEvent
        [\<lparr>type = ''log'', error = None\<rparr>,
         \<lparr>type = ''exit'', error = Some (ArgError \<lparr>errorMessage = ''boom'', errorStack = None\<rparr>)\<rparr>]
      @ [CloseEvent])
   = Some (RejectedWith (JError \<lparr>message = ''boom'', stack = None, name = ''Error''\<rparr>))
   \<and> invokeAsSubprocessAsync [logging_manager ''log'' 0] []
     (map MessageEvent [\<lparr>type = ''exit'', error = Some ArgUndefined\<rparr>] @ [CloseEvent]) = Some Resolved"
  using close_settles_promise [of "[logging_manager ''log'' 0]" "[]"
      "[\<lparr>type = ''log'', error = None\<rparr>,
        \<lparr>type = ''exit'', error = Some (ArgError \<lparr>errorMessage = ''boom'', errorStack = None\<rparr>)\<rparr>]" "[]"]
    close_settles_promise [of "[logging_manager ''log'' 0]" "[]"
      "[\<lparr>type = ''exit'', error = Some ArgUndefined\<rparr>]" "[]"]
  by (simp add: initial_parent_state_def on_message_def logging_manager_def deserializeArg_def)

text \<open>
  The claim as it is written rejects whenever a completion error was recorded. A worker
  whose \<open>invokeAsync\<close> throws \<open>null\<close> sends an exit message that carries Null; the
  parent records \<open>null\<close>, which is not undefined, and on \<open>close\<close> the promise resolves.
\<close>

theorem recorded_null_resolves:
  "SUBPROCESS_RUNNER_INNER_INVOKE \<lparr>outcome = ThrowsSynchronously JNull, performed = []\<rparr>
     = (Fulfilled, [On ''message'', RemoveAllListeners, Send \<lparr>type = ''exit'', error = Some ArgNull\<rparr>])
   \<and> hasExited (snd (emit_all [logging_manager ''log'' 0]
        [MessageEvent \<lparr>type = ''exit'', error = Some ArgNull\<rparr>] (initial_parent_state [])))
   \<and> exitError (snd (emit_all [logging_manager ''log'' 0]
        [MessageEvent \<lparr>type = ''exit'', error = Some ArgNull\<rparr>] (initial_parent_state []))) = JNull
   \<and> JNull \<noteq> JUndefined
   \<and> invokeAsSubprocessAsync [logging_manager ''log'' 0] []
        [MessageEvent \<lparr>type = ''exit'', error = Some ArgNull\<rparr>, CloseEvent] = Some Resolved"
  by (simp add: SUBPROCESS_RUNNER_INNER_INVOKE_def serializeArg_def invokeAsSubprocessAsync_def
        initial_parent_state_def on_message_def deserializeArg_def on_close_def settle_def)

text \<open>
  Claim C3. An exit message handled when \<open>hasExited\<close> is already true raises the
  duplicate-exit error and records nothing; the first exit message sets \<open>hasExited\<close>
  and stores the deserialized carried argument in \<open>exitError\<close> (what \<open>deserializeArg\<close>
  throws, it throws on, with \<open>hasExited\<close> set). So in any sequence of events, an exit
  message that comes after an exit message raises the duplicate-exit error.
\<close>

theorem duplicate_exit_message:
  "(hasExited s \<and> type msg = ''exit'' \<longrightarrow> on_message M msg s = (Some DuplicateExitMessage, s))
   \<and> (\<not> hasExited s \<and> type msg = ''exit'' \<and> error msg = Some carried \<longrightarrow>
        on_message M msg s =
          (case deserializeArg carried of
             Inl thrown \<Rightarrow> (Some thrown, s\<lparr>hasExited := True\<rparr>)
           | Inr v \<Rightarrow> (None, s\<lparr>hasExited := True, exitError := v\<rparr>)))
   \<and> (\<forall>i j m1 m2. i < j \<and> j < length es
          \<and> es ! i = MessageEvent m1 \<and> type m1 = ''exit''
          \<and> es ! j = MessageEvent m2 \<and> type m2 = ''exit''
        \<longrightarrow> fst (emit_all M es s) ! j = Some DuplicateExitMessage)"
proof (intro conjI allI impI)
  assume "hasExited s \<and> type msg = ''exit''"
  then show "on_message M msg s = (Some DuplicateExitMessage, s)"
    by (simp add: on_message_def)
next
  assume "\<not> hasExited s \<and> type msg = ''exit'' \<and> error msg = Some carried"
  then show "on_message M msg s =
          (case deserializeArg carried of
             Inl thrown \<Rightarrow> (Some thrown, s\<lparr>hasExited := True\<rparr>)
           | Inr v \<Rightarrow> (None, s\<lparr>hasExited := True, exitError := v\<rparr>))"
    by (simp add: on_message_def split: sum.splits)
next
  fix i j m1 m2
  assume a: "i < j \<and> j < length es \<and> es ! i = MessageEvent m1 \<and> type m1 = ''exit''
          \<and> es ! j = MessageEvent m2 \<and> type m2 = ''exit''"
  then have "hasExited (snd (emit_all M (take j es) s))"
    using hasExited_after_exit [of i j es m1 M s] by simp
  with a show "fst (emit_all M es s) ! j = Some DuplicateExitMessage"
    by (simp add: nth_emit_all on_message_def)
qed

theorem duplicate_exit_message_witness:
  "(0::nat) < 1 \<and> 1 < length [MessageEvent \<lparr>type = ''exit'', error = Some ArgUndefined\<rparr>,
                               MessageEvent \<lparr>type = ''exit'', error = Some ArgNull\<rparr>]
   \<and> fst (emit_all [logging_manager ''log'' 0]
            [MessageEvent \<lparr>type = ''exit'', error = Some ArgUndefined\<rparr>,
             MessageEvent \<lparr>type = ''exit'', error = Some ArgNull\<rparr>]
            (initial_parent_state [])) ! 1 = Some DuplicateExitMessage
   \<and> snd (emit_all [logging_manager ''log'' 0]
            [MessageEvent \<lparr>type = ''exit'', error = Some ArgUndefined\<rparr>,
             MessageEvent \<lparr>type = ''exit'', error = Some ArgNull\<rparr>]
            (initial_parent_state []))
       = \<lparr>hasExited = True, exitError = JUndefined, promise = None, world = []\<rparr>"
  using duplicate_exit_message [of "initial_parent_state []" "\<lparr>type = ''exit'', error = Some ArgUndefined\<rparr>"
      "[logging_manager ''log'' 0]" ArgUndefined
      "[MessageEvent \<lparr>type = ''exit'', error = Some ArgUndefined\<rparr>,
        MessageEvent \<lparr>type = ''exit'', error = Some ArgNull\<rparr>]"]
  by (simp add: initial_parent_state_def on_message_def deserializeArg_def)

text \<open>
  Claim C4. A message that is not an exit message, handled when \<open>hasExited\<close> is true,
  raises the message-after-exit error and leaves the state, that of the managers
  included, as it was; handled while \<open>hasExited\<close> is false, it is dispatched to the
  communication managers. So in any sequence of events a non-exit message after an exit
  message raises the error and reaches no manager, and a non-exit message before every
  exit message is dispatched.
\<close>

theorem message_after_exit:
  "(hasExited s \<and> type msg \<noteq> ''exit'' \<longrightarrow> on_message M msg s = (Some MessageAfterExit, s))
   \<and> (\<not> hasExited s \<and> type msg \<noteq> ''exit'' \<longrightarrow>
        on_message M msg s =
          (fst (runner_receiveMessageFromSubprocess M msg (world s)),
           s\<lparr>world := snd (runner_receiveMessageFromSubprocess M msg (world s))\<rparr>))
   \<and> (\<forall>i j m1 m2. i < j \<and> j < length es
          \<and> es ! i = MessageEvent m1 \<and> type m1 = ''exit''
          \<and> es ! j = MessageEvent m2 \<and> type m2 \<noteq> ''exit''
        \<longrightarrow> fst (emit_all M es s) ! j = Some MessageAfterExit
            \<and> snd (emit_all M (take (Suc j) es) s) = snd (emit_all M (take j es) s))
   \<and> (\<forall>j m. \<not> hasExited s \<and> j < length ms \<and> (\<forall>i < j. type (ms ! i) \<noteq> ''exit'') \<and> type (ms ! j) \<noteq> ''exit''
        \<longrightarrow> fst (emit_all M (map MessageEvent ms) s) ! j =
              fst (runner_receiveMessageFromSubprocess M (ms ! j)
                    (world (snd (emit_all M (map MessageEvent (take j ms)) s)))))"
proof (intro conjI allI impI)
  assume "hasExited s \<and> type msg \<noteq> ''exit''"
  then show "on_message M msg s = (Some MessageAfterExit, s)"
    by (simp add: on_message_def)
next
  assume "\<not> hasExited s \<and> type msg \<noteq> ''exit''"
  then show "on_message M msg s =
          (fst (runner_receiveMessageFromSubprocess M msg (world s)),
           s\<lparr>world := snd (runner_receiveMessageFromSubprocess M msg (world s))\<rparr>)"
    by (simp add: on_message_def case_prod_beta)
next
  fix i j m1 m2
  assume a: "i < j \<and> j < length es \<and> es ! i = MessageEvent m1 \<and> type m1 = ''exit''
          \<and> es ! j = MessageEvent m2 \<and> type m2 \<noteq> ''exit''"
  then have "hasExited (snd (emit_all M (take j es) s))"
    using hasExited_after_exit [of i j es m1 M s] by simp
  with a show "fst (emit_all M es s) ! j = Some MessageAfterExit"
    by (simp add: nth_emit_all on_message_def)
next
  fix i j m1 m2
  assume a: "i < j \<and> j < length es \<and> es ! i = MessageEvent m1 \<and> type m1 = ''exit''
          \<and> es ! j = MessageEvent m2 \<and> type m2 \<noteq> ''exit''"
  then have "hasExited (snd (emit_all M (take j es) s))"
    using hasExited_after_exit [of i j es m1 M s] by simp
  with a show "snd (emit_all M (take (Suc j) es) s) = snd (emit_all M (take j es) s)"
    by (simp add: snd_emit_all_Suc on_message_def)
next
  fix j m
  assume a: "\<not> hasExited s \<and> j < length ms \<and> (\<forall>i < j. type (ms ! i) \<noteq> ''exit'') \<and> type (ms ! j) \<noteq> ''exit''"
  then have "\<forall>m \<in> set (take j ms). type m \<noteq> ''exit''"
    by (auto simp: in_set_conv_nth)
  with a have "\<not> hasExited (snd (emit_all M (map MessageEvent (take j ms)) s))"
    using not_hasExited_before_exit by blast
  with a show "fst (emit_all M (map MessageEvent ms) s) ! j =
              fst (runner_receiveMessageFromSubprocess M (ms ! j)
                    (world (snd (emit_all M (map MessageEvent (take j ms)) s))))"
    by (simp add: nth_emit_all take_map on_message_def case_prod_beta)
qed

theorem message_after_exit_witness:
  "(0::nat) < 1 \<and> 1 < length [MessageEvent \<lparr>type = ''exit'', error = Some ArgUndefined\<rparr>,
                               MessageEvent \<lparr>type = ''log'', error = None\<rparr>]
   \<and> emit_all [logging_manager ''log'' 7]
            [MessageEvent \<lparr>type = ''exit'', error = Some ArgUndefined\<rparr>,
             MessageEvent \<lparr>type = ''log'', error = None\<rparr>]
            (initial_parent_state [])
       = ([None, Some MessageAfterExit],
          \<lparr>hasExited = True, exitError = JUndefined, promise = None, world = []\<rparr>)
   \<and> emit_all [logging_manager ''log'' 7]
            [MessageEvent \<lparr>type = ''log'', error = None\<rparr>,
             MessageEvent \<lparr>type = ''exit'', error = Some ArgUndefined\<rparr>]
            (initial_parent_state [])
       = ([None, None],
          \<lparr>hasExited = True, exitError = JUndefined, promise = None, world = [7]\<rparr>)"
  using message_after_exit [of "initial_parent_state []" "\<lparr>type = ''log'', error = None\<rparr>"
      "[logging_manager ''log'' 7]"
      "[MessageEvent \<lparr>type = ''exit'', error = Some ArgUndefined\<rparr>,
        MessageEvent \<lparr>type = ''log'', error = None\<rparr>]" "[]"]
  by (simp add: initial_parent_state_def on_message_def deserializeArg_def logging_manager_def)

section \<open>Properties of the worker bootstrap\<close>

lemma bootstrap_unsupported_throw:
  assumes "caught_error (outcome work) = Some e" "serializeArg e = Inl thrown"
  shows "SUBPROCESS_RUNNER_INNER_INVOKE work =
           (RejectedBy thrown, On ''message'' # performed work @ [RemoveAllListeners])"
  using assms
  by (cases "outcome work") (simp_all add: SUBPROCESS_RUNNER_INNER_INVOKE_def)

lemma bootstrap_never_settles:
  "outcome work = NeverSettles \<Longrightarrow>
   SUBPROCESS_RUNNER_INNER_INVOKE work = (Pending, On ''message'' # performed work)"
  by (simp add: SUBPROCESS_RUNNER_INNER_INVOKE_def)

text \<open>
  Claim C1, as amended. For every run of the worker bootstrap in which \<open>invokeAsync\<close>
  returns normally, or throws (synchronously or asynchronously) a value that
  \<open>serializeArg\<close> supports (every \<open>Error\<close> is one; \<open>Error | undefined\<close> is the
  declared type of the caught error), the bootstrap performs, after what the work did,
  exactly two actions: it removes all listeners and then sends one exit message, whose
  payload is \<open>serializeArg(undefined)\<close> on normal completion and
  \<open>serializeArg(caughtError)\<close> on failure.
\<close>

theorem bootstrap_exit_message:
  "(outcome work = Returns \<longrightarrow>
      SUBPROCESS_RUNNER_INNER_INVOKE work =
        (Fulfilled, On ''message'' # performed work
           @ [RemoveAllListeners, Send \<lparr>type = ''exit'', error = Some ArgUndefined\<rparr>])
      \<and> serializeArg JUndefined = Inr ArgUndefined)
   \<and> (\<forall>e. caught_error (outcome work) = Some e \<and> supported e \<longrightarrow>
        (\<exists>carried. serializeArg e = Inr carried
           \<and> SUBPROCESS_RUNNER_INNER_INVOKE work =
               (Fulfilled, On ''message'' # performed work
                  @ [RemoveAllListeners, Send \<lparr>type = ''exit'', error = Some carried\<rparr>])))"
proof (intro conjI allI impI)
  assume "outcome work = Returns"
  then show "SUBPROCESS_RUNNER_INNER_INVOKE work =
        (Fulfilled, On ''message'' # performed work
           @ [RemoveAllListeners, Send \<lparr>type = ''exit'', error = Some ArgUndefined\<rparr>])"
    by (simp add: SUBPROCESS_RUNNER_INNER_INVOKE_def serializeArg_def)
next
  show "serializeArg JUndefined = Inr ArgUndefined"
    by (simp add: serializeArg_def)
next
  fix e
  assume a: "caught_error (outcome work) = Some e \<and> supported e"
  then obtain carried where carried: "serializeArg e = Inr carried"
    using serializeArg_supported by blast
  from a have "outcome work = ThrowsSynchronously e \<or> outcome work = RejectsAsynchronously e"
    by (cases "outcome work") simp_all
  then have "SUBPROCESS_RUNNER_INNER_INVOKE work =
               (Fulfilled, On ''message'' # performed work
                  @ [RemoveAllListeners, Send \<lparr>type = ''exit'', error = Some carried\<rparr>])"
    using carried by (auto simp add: SUBPROCESS_RUNNER_INNER_INVOKE_def)
  with carried show "\<exists>carried. serializeArg e = Inr carried
           \<and> SUBPROCESS_RUNNER_INNER_INVOKE work =
               (Fulfilled, On ''message'' # performed work
                  @ [RemoveAllListeners, Send \<lparr>type = ''exit'', error = Some carried\<rparr>])"
    by blast
qed

theorem bootstrap_exit_message_witness:
  "caught_error (outcome \<lparr>outcome = RejectsAsynchronously (JError \<lparr>message = ''boom'', stack = Some ''at f'', name = ''Error''\<rparr>),
                         performed = [Send \<lparr>type = ''log'', error = None\<rparr>]\<rparr>)
     = Some (JError \<lparr>message = ''boom'', stack = Some ''at f'', name = ''Error''\<rparr>)
   \<and> supported (JError \<lparr>message = ''boom'', stack = Some ''at f'', name = ''Error''\<rparr>)
   \<and> SUBPROCESS_RUNNER_INNER_INVOKE
        \<lparr>outcome = RejectsAsynchronously (JError \<lparr>message = ''boom'', stack = Some ''at f'', name = ''Error''\<rparr>),
         performed = [Send \<lparr>type = ''log'', error = None\<rparr>]\<rparr>
     = (Fulfilled,
        [On ''message'', Send \<lparr>type = ''log'', error = None\<rparr>, RemoveAllListeners,
         Send \<lparr>type = ''exit'', error = Some (ArgError \<lparr>errorMessage = ''boom'', errorStack = Some ''at f''\<rparr>)\<rparr>])"
  using bootstrap_exit_message
    [of "\<lparr>outcome = RejectsAsynchronously (JError \<lparr>message = ''boom'', stack = Some ''at f'', name = ''Error''\<rparr>),
          performed = [Send \<lparr>type = ''log'', error = None\<rparr>]\<rparr>"]
  by (simp add: supported_def serializeArg_def)

text \<open>
  The claim as it is written covers every thrown value. A rejection with a plain object
  is a run in which the listeners are removed and no exit message is sent.
\<close>

theorem bootstrap_unsupported_throw_sends_no_exit_message:
  "SUBPROCESS_RUNNER_INNER_INVOKE
     \<lparr>outcome = RejectsAsynchronously (JObject (Some ''[object Object]'')), performed = []\<rparr>
   = (RejectedBy (UnsupportedArgumentType ''[object Object]''), [On ''message'', RemoveAllListeners])"
  by (simp add: SUBPROCESS_RUNNER_INNER_INVOKE_def serializeArg_def)

section \<open>Properties of the node arguments\<close>

lemma firstNodeArgPart_is_flag:
  assumes "CHR ''='' \<notin> set flag"
  shows "firstNodeArgPart a = flag \<longleftrightarrow> is_flag flag a"
proof
  assume first: "firstNodeArgPart a = flag"
  have a: "a = flag @ dropWhile (\<lambda>c. c \<noteq> CHR ''='') a"
    using first takeWhile_dropWhile_id [of "\<lambda>c. c \<noteq> CHR ''=''" a]
    by (simp add: firstNodeArgPart_def)
  show "is_flag flag a"
  proof (cases "dropWhile (\<lambda>c. c \<noteq> CHR ''='') a")
    case Nil
    with a show ?thesis by (simp add: is_flag_def)
  next
    case (Cons c cs)
    then have "c = CHR ''=''"
      using hd_dropWhile [of "\<lambda>c. c \<noteq> CHR ''=''" a] by simp
    with Cons a have "a = flag @ CHR ''='' # cs" by simp
    then have "take (length flag + 1) a = flag @ ''=''" by simp
    then show ?thesis by (simp add: is_flag_def)
  qed
next
  assume "is_flag flag a"
  then consider "a = flag" | "take (length flag + 1) a = flag @ ''=''"
    by (auto simp: is_flag_def)
  then show "firstNodeArgPart a = flag"
  proof cases
    case 1
    with assms show ?thesis
      by (auto simp add: firstNodeArgPart_def)
  next
    case 2
    have "a = take (length flag + 1) a @ drop (length flag + 1) a" by simp
    with 2 have "a = flag @ CHR ''='' # drop (length flag + 1) a" by simp
    then obtain rest where "a = flag @ CHR ''='' # rest" ..
    moreover have "\<And>x. x \<in> set flag \<Longrightarrow> x \<noteq> CHR ''=''"
      using assms by auto
    then have "takeWhile (\<lambda>c. c \<noteq> CHR ''='') (flag @ CHR ''='' # rest) = flag"
      by simp
    ultimately show ?thesis
      by (simp add: firstNodeArgPart_def)
  qed
qed

lemma rewritten_source:
  "rewritten port a =
     (if firstNodeArgPart a = ''--inspect'' \<or> firstNodeArgPart a = ''--inspect-brk''
      then firstNodeArgPart a @ ''='' @ string_of_nat port else a)"
proof -
  have 1: "firstNodeArgPart a = ''--inspect'' \<longleftrightarrow> is_flag ''--inspect'' a"
    by (rule firstNodeArgPart_is_flag) simp
  have 2: "firstNodeArgPart a = ''--inspect-brk'' \<longleftrightarrow> is_flag ''--inspect-brk'' a"
    by (rule firstNodeArgPart_is_flag) simp
  show ?thesis
    unfolding rewritten_def 1 [symmetric] 2 [symmetric] by auto
qed

lemma processNodeArgs_loop_result:
  "nodeArgs < length store \<Longrightarrow>
   processNodeArgs_loop nodeArgs inspectPort i willUseInspector store =
     (store[nodeArgs := take i (store ! nodeArgs) @ map (rewritten inspectPort) (drop i (store ! nodeArgs))],
      willUseInspector \<or> (\<exists>a \<in> set (drop i (store ! nodeArgs)).
         firstNodeArgPart a = ''--inspect'' \<or> firstNodeArgPart a = ''--inspect-brk''))"
proof (induction nodeArgs inspectPort i willUseInspector store rule: processNodeArgs_loop.induct)
  case (1 nodeArgs inspectPort i willUseInspector store)
  let ?xs = "store ! nodeArgs"
  show ?case
  proof (cases "i < length ?xs")
    case False
    then show ?thesis
      using "1.prems" by (simp add: processNodeArgs_loop.simps [of nodeArgs inspectPort i])
  next
    case True
    let ?part = "firstNodeArgPart (?xs ! i)"
    have drop: "drop i ?xs = ?xs ! i # drop (Suc i) ?xs"
      using True by (simp add: Cons_nth_drop_Suc)
    show ?thesis
    proof (cases "?part = ''--inspect'' \<or> ?part = ''--inspect-brk''")
      case flag: True
      let ?new = "?part @ ''='' @ string_of_nat inspectPort"
      let ?store' = "store[nodeArgs := ?xs[i := ?new]]"
      have len: "nodeArgs < length ?store'" using "1.prems" by simp
      have nth: "?store' ! nodeArgs = ?xs[i := ?new]" using "1.prems" by simp
      have new: "rewritten inspectPort (?xs ! i) = ?new"
        using flag by (simp add: rewritten_source)
      have "processNodeArgs_loop nodeArgs inspectPort i willUseInspector store =
              processNodeArgs_loop nodeArgs inspectPort (i + 1) True ?store'"
        using True flag by (simp add: processNodeArgs_loop.simps [of nodeArgs inspectPort i] Let_def)
      also have "\<dots> = (?store'[nodeArgs := take (i + 1) (?store' ! nodeArgs)
                              @ map (rewritten inspectPort) (drop (i + 1) (?store' ! nodeArgs))], True)"
        using "1.IH"(1) [OF True refl flag len] by simp
      also have "take (i + 1) (?store' ! nodeArgs) = take i ?xs @ [?new]"
        using True "1.prems" by (simp add: take_Suc_conv_app_nth)
      also have "drop (i + 1) (?store' ! nodeArgs) = drop (Suc i) ?xs"
        using "1.prems" by simp
      finally show ?thesis
        using flag by (simp add: drop new)
    next
      case other: False
      have same: "rewritten inspectPort (?xs ! i) = ?xs ! i"
        using other by (simp add: rewritten_source)
      have "processNodeArgs_loop nodeArgs inspectPort i willUseInspector store =
              processNodeArgs_loop nodeArgs inspectPort (i + 1) willUseInspector store"
        using True other by (simp add: processNodeArgs_loop.simps [of nodeArgs inspectPort i] Let_def)
      also have "\<dots> = (store[nodeArgs := take (i + 1) ?xs @ map (rewritten inspectPort) (drop (i + 1) ?xs)],
                        willUseInspector \<or> (\<exists>a \<in> set (drop (i + 1) ?xs).
                           firstNodeArgPart a = ''--inspect'' \<or> firstNodeArgPart a = ''--inspect-brk''))"
        using "1.IH"(2) [OF True refl other "1.prems"] by simp
      also have "take (i + 1) ?xs = take i ?xs @ [?xs ! i]"
        using True by (simp add: take_Suc_conv_app_nth)
      finally show ?thesis
        using other by (simp add: drop same)
    qed
  qed
qed


lemma processNodeArgsForSubprocess_result:
  assumes "nodeArgs < length (arrays s)"
  shows "fst (processNodeArgsForSubprocess nodeArgs s) = length (arrays s)"
    and "arrays (snd (processNodeArgsForSubprocess nodeArgs s)) =
           arrays s @ [map (rewritten (subprocessInspectorPort s)) (arrays s ! nodeArgs)]"
    and "subprocessInspectorPort (snd (processNodeArgsForSubprocess nodeArgs s)) =
           increment_number (subprocessInspectorPort s)"
    and "terminal (snd (processNodeArgsForSubprocess nodeArgs s)) =
           terminal s @
           (if \<exists>a \<in> set (arrays s ! nodeArgs). is_flag ''--inspect'' a \<or> is_flag ''--inspect-brk'' a
            then [''Subprocess with inspector bound to port '' @ string_of_nat (subprocessInspectorPort s)]
            else [])"
proof -
  let ?store = "arrays s @ [arrays s ! nodeArgs]"
  have 1: "firstNodeArgPart a = ''--inspect'' \<longleftrightarrow> is_flag ''--inspect'' a" for a
    by (rule firstNodeArgPart_is_flag) simp
  have 2: "firstNodeArgPart a = ''--inspect-brk'' \<longleftrightarrow> is_flag ''--inspect-brk'' a" for a
    by (rule firstNodeArgPart_is_flag) simp
  have loop: "processNodeArgs_loop (length (arrays s)) (subprocessInspectorPort s) 0 False ?store =
          (arrays s @ [map (rewritten (subprocessInspectorPort s)) (arrays s ! nodeArgs)],
           \<exists>a \<in> set (arrays s ! nodeArgs). is_flag ''--inspect'' a \<or> is_flag ''--inspect-brk'' a)"
    by (simp add: processNodeArgs_loop_result 1 2)
  show "fst (processNodeArgsForSubprocess nodeArgs s) = length (arrays s)"
    by (simp add: processNodeArgsForSubprocess_def Let_def loop)
  show "arrays (snd (processNodeArgsForSubprocess nodeArgs s)) =
           arrays s @ [map (rewritten (subprocessInspectorPort s)) (arrays s ! nodeArgs)]"
    by (simp add: processNodeArgsForSubprocess_def Let_def loop)
  show "subprocessInspectorPort (snd (processNodeArgsForSubprocess nodeArgs s)) =
           increment_number (subprocessInspectorPort s)"
    by (simp add: processNodeArgsForSubprocess_def Let_def loop)
  show "terminal (snd (processNodeArgsForSubprocess nodeArgs s)) =
           terminal s @
           (if \<exists>a \<in> set (arrays s ! nodeArgs). is_flag ''--inspect'' a \<or> is_flag ''--inspect-brk'' a
            then [''Subprocess with inspector bound to port '' @ string_of_nat (subprocessInspectorPort s)]
            else [])"
    by (simp add: processNodeArgsForSubprocess_def Let_def loop)
qed

lemma launches_Cons:
  "fst (launches (r # rest) s) =
     fst (processNodeArgsForSubprocess r s) # fst (launches rest (snd (processNodeArgsForSubprocess r s)))"
  "snd (launches (r # rest) s) = snd (launches rest (snd (processNodeArgsForSubprocess r s)))"
  by (simp_all add: case_prod_beta)

lemma length_launches: "length (fst (launches refs s)) = length refs"
  by (induction refs arbitrary: s) (simp_all add: case_prod_beta)

lemma launches_frame:
  "\<forall>r \<in> set refs. r < length (arrays s) \<Longrightarrow>
   length (arrays s) \<le> length (arrays (snd (launches refs s)))
   \<and> (\<forall>k < length (arrays s). arrays (snd (launches refs s)) ! k = arrays s ! k)"
proof (induction refs arbitrary: s)
  case Nil
  then show ?case by simp
next
  case (Cons r refs)
  let ?s' = "snd (processNodeArgsForSubprocess r s)"
  have r: "r < length (arrays s)" using Cons.prems by simp
  have arrays': "arrays ?s' = arrays s @ [map (rewritten (subprocessInspectorPort s)) (arrays s ! r)]"
    by (rule processNodeArgsForSubprocess_result(2) [OF r])
  have "\<forall>r \<in> set refs. r < length (arrays ?s')"
    using Cons.prems by (auto simp: arrays')
  from Cons.IH [OF this] show ?case
    by (auto simp: launches_Cons arrays' nth_append simp del: launches.simps(2))
qed

text \<open>
  Claim C9. \<open>_processNodeArgsForSubprocess\<close> leaves the caller's array as it was, and
  every other array that existed: what it returns is a reference that did not exist
  before the call, different from the caller's, and all rewriting went to that clone.
\<close>

theorem node_args_unchanged:
  assumes "nodeArgs < length (arrays s)"
  shows "arrays (snd (processNodeArgsForSubprocess nodeArgs s)) ! nodeArgs = arrays s ! nodeArgs
     \<and> (\<forall>k < length (arrays s). arrays (snd (processNodeArgsForSubprocess nodeArgs s)) ! k = arrays s ! k)
     \<and> fst (processNodeArgsForSubprocess nodeArgs s) = length (arrays s)
     \<and> fst (processNodeArgsForSubprocess nodeArgs s) \<noteq> nodeArgs
     \<and> fst (processNodeArgsForSubprocess nodeArgs s) < length (arrays (snd (processNodeArgsForSubprocess nodeArgs s)))"
  using assms by (simp add: processNodeArgsForSubprocess_result nth_append)

theorem node_args_unchanged_witness:
  "(0::nat) < length (arrays \<lparr>subprocessInspectorPort = 9230,
        arrays = [[''--inspect-brk=5858'', ''--no-warnings'']], terminal = []\<rparr>)
   \<and> arrays (snd (processNodeArgsForSubprocess 0 \<lparr>subprocessInspectorPort = 9230,
        arrays = [[''--inspect-brk=5858'', ''--no-warnings'']], terminal = []\<rparr>))
       = [[''--inspect-brk=5858'', ''--no-warnings''], [''--inspect-brk=9230'', ''--no-warnings'']]
   \<and> fst (processNodeArgsForSubprocess 0 \<lparr>subprocessInspectorPort = 9230,
        arrays = [[''--inspect-brk=5858'', ''--no-warnings'']], terminal = []\<rparr>) = 1"
  using node_args_unchanged [of 0 "\<lparr>subprocessInspectorPort = 9230,
        arrays = [[''--inspect-brk=5858'', ''--no-warnings'']], terminal = []\<rparr>"]
  by (simp add: processNodeArgsForSubprocess_result rewritten_def is_flag_def
        string_of_nat.simps digit_char_def)

lemma increment_number_exact: "c < 2 ^ 53 \<Longrightarrow> increment_number c = c + 1"
  by (simp add: increment_number_def)

lemma increment_number_stuck: "increment_number (2 ^ 53) = 2 ^ 53"
  by (simp add: increment_number_def)

lemma launches_counter:
  "\<forall>r \<in> set refs. r < length (arrays s) \<Longrightarrow>
   subprocessInspectorPort s + length refs \<le> 2 ^ 53 \<Longrightarrow>
   subprocessInspectorPort (snd (launches refs s)) = subprocessInspectorPort s + length refs"
proof (induction refs arbitrary: s)
  case Nil
  then show ?case by simp
next
  case (Cons r refs)
  let ?s' = "snd (processNodeArgsForSubprocess r s)"
  have r: "r < length (arrays s)" using Cons.prems by simp
  have below: "subprocessInspectorPort s < 2 ^ 53" using Cons.prems(2) by simp
  have port': "subprocessInspectorPort ?s' = subprocessInspectorPort s + 1"
    by (simp add: processNodeArgsForSubprocess_result(3) [OF r] increment_number_exact [OF below])
  have valid: "\<forall>r \<in> set refs. r < length (arrays ?s')"
    using Cons.prems by (auto simp: processNodeArgsForSubprocess_result(2) [OF r])
  have bound: "subprocessInspectorPort ?s' + length refs \<le> 2 ^ 53"
    using Cons.prems(2) by (simp add: port')
  from Cons.IH [OF valid bound] show ?case
    by (simp add: launches_Cons port' del: launches.simps(2))
qed

lemma launches_arguments:
  "\<forall>r \<in> set refs. r < length (arrays s) \<Longrightarrow>
   subprocessInspectorPort s + length refs \<le> 2 ^ 53 \<Longrightarrow>
   \<forall>j < length refs.
      arrays (snd (launches refs s)) ! (fst (launches refs s) ! j) =
        map (rewritten (subprocessInspectorPort s + j)) (arrays s ! (refs ! j))"
proof (induction refs arbitrary: s)
  case Nil
  then show ?case by simp
next
  case (Cons r refs)
  let ?s' = "snd (processNodeArgsForSubprocess r s)"
  have r: "r < length (arrays s)" using Cons.prems by simp
  have below: "subprocessInspectorPort s < 2 ^ 53" using Cons.prems(2) by simp
  have arrays': "arrays ?s' = arrays s @ [map (rewritten (subprocessInspectorPort s)) (arrays s ! r)]"
    by (rule processNodeArgsForSubprocess_result(2) [OF r])
  have port': "subprocessInspectorPort ?s' = subprocessInspectorPort s + 1"
    by (simp add: processNodeArgsForSubprocess_result(3) [OF r] increment_number_exact [OF below])
  have valid: "\<forall>r \<in> set refs. r < length (arrays ?s')"
    using Cons.prems by (auto simp: arrays')
  have bound: "subprocessInspectorPort ?s' + length refs \<le> 2 ^ 53"
    using Cons.prems(2) by (simp add: port')
  have frame: "\<forall>k < length (arrays ?s'). arrays (snd (launches refs ?s')) ! k = arrays ?s' ! k"
    using launches_frame [OF valid] by simp
  show ?case
  proof (intro allI impI)
    fix j
    assume j: "j < length (r # refs)"
    show "arrays (snd (launches (r # refs) s)) ! (fst (launches (r # refs) s) ! j) =
            map (rewritten (subprocessInspectorPort s + j)) (arrays s ! ((r # refs) ! j))"
    proof (cases j)
      case 0
      have "arrays (snd (launches refs ?s')) ! length (arrays s) = arrays ?s' ! length (arrays s)"
        using frame by (simp add: arrays')
      then show ?thesis
        using 0 by (simp add: launches_Cons processNodeArgsForSubprocess_result(1) [OF r] arrays'
            del: launches.simps(2))
    next
      case (Suc k)
      with j have k: "k < length refs" by simp
      then have "refs ! k < length (arrays s)" using Cons.prems by simp
      then have "arrays ?s' ! (refs ! k) = arrays s ! (refs ! k)"
        by (simp add: arrays' nth_append)
      with Cons.IH [OF valid bound] k Suc show ?thesis
        by (simp add: launches_Cons port' del: launches.simps(2))
    qed
  qed
qed

text \<open>
  Claim C8. The counter starts above the default port 9229. In a sequence of launches
  that keeps the counter within \<open>2^53\<close>, where adding one to a JavaScript number is
  exact (every sequence of fewer than \<open>2^53 - 9230\<close> launches from the initial counter
  does), the launch number \<open>j\<close> (from 0) uses the port \<open>j\<close> above the counter's value
  before the sequence, so the ports of successive launches are distinct and strictly
  increasing, and the counter has moved by the number of launches. The arguments handed
  to that child are the caller's arguments with every \<open>--inspect\<close> or \<open>--inspect-brk\<close>
  flag, with or without a suffix that starts with \<open>=\<close>, replaced by the flag with that
  port, and every other argument as it was.
\<close>

theorem inspector_ports:
  "9229 < initial_subprocessInspectorPort
   \<and> ((\<forall>r \<in> set refs. r < length (arrays s)) \<and> subprocessInspectorPort s + length refs \<le> 2 ^ 53 \<longrightarrow>
        length (fst (launches refs s)) = length refs
        \<and> subprocessInspectorPort (snd (launches refs s)) = subprocessInspectorPort s + length refs
        \<and> (\<forall>j < length refs.
              arrays (snd (launches refs s)) ! (fst (launches refs s) ! j) =
                map (rewritten (subprocessInspectorPort s + j)) (arrays s ! (refs ! j)))
        \<and> (\<forall>i j. i < j \<and> j < length refs \<longrightarrow>
              subprocessInspectorPort s + i < subprocessInspectorPort s + j))"
proof (intro conjI impI)
  show "9229 < initial_subprocessInspectorPort"
    by (simp add: initial_subprocessInspectorPort_def)
next
  show "length (fst (launches refs s)) = length refs"
    by (rule length_launches)
next
  assume "(\<forall>r \<in> set refs. r < length (arrays s)) \<and> subprocessInspectorPort s + length refs \<le> 2 ^ 53"
  then show "subprocessInspectorPort (snd (launches refs s)) = subprocessInspectorPort s + length refs"
    using launches_counter by blast
next
  assume "(\<forall>r \<in> set refs. r < length (arrays s)) \<and> subprocessInspectorPort s + length refs \<le> 2 ^ 53"
  then show "\<forall>j < length refs.
              arrays (snd (launches refs s)) ! (fst (launches refs s) ! j) =
                map (rewritten (subprocessInspectorPort s + j)) (arrays s ! (refs ! j))"
    using launches_arguments by blast
next
  show "\<forall>i j. i < j \<and> j < length refs \<longrightarrow>
              subprocessInspectorPort s + i < subprocessInspectorPort s + j"
    by simp
qed

theorem inspector_ports_witness:
  "(0::nat) < length (arrays \<lparr>subprocessInspectorPort = initial_subprocessInspectorPort,
        arrays = [[''--inspect'', ''--no-warnings'', ''--inspect-port=1'']], terminal = []\<rparr>)
   \<and> initial_subprocessInspectorPort + length [0::nat, 0, 0] \<le> 2 ^ 53
   \<and> fst (launches [0, 0, 0] \<lparr>subprocessInspectorPort = initial_subprocessInspectorPort,
        arrays = [[''--inspect'', ''--no-warnings'', ''--inspect-port=1'']], terminal = []\<rparr>) = [1, 2, 3]
   \<and> arrays (snd (launches [0, 0, 0] \<lparr>subprocessInspectorPort = initial_subprocessInspectorPort,
        arrays = [[''--inspect'', ''--no-warnings'', ''--inspect-port=1'']], terminal = []\<rparr>))
       = [[''--inspect'', ''--no-warnings'', ''--inspect-port=1''],
          [''--inspect=9230'', ''--no-warnings'', ''--inspect-port=1''],
          [''--inspect=9231'', ''--no-warnings'', ''--inspect-port=1''],
          [''--inspect=9232'', ''--no-warnings'', ''--inspect-port=1'']]
   \<and> subprocessInspectorPort (snd (launches [0, 0, 0] \<lparr>subprocessInspectorPort = initial_subprocessInspectorPort,
        arrays = [[''--inspect'', ''--no-warnings'', ''--inspect-port=1'']], terminal = []\<rparr>)) = 9233"
  using inspector_ports [of "[0, 0, 0]" "\<lparr>subprocessInspectorPort = initial_subprocessInspectorPort,
        arrays = [[''--inspect'', ''--no-warnings'', ''--inspect-port=1'']], terminal = []\<rparr>"]
  by (simp add: launches_Cons processNodeArgsForSubprocess_result rewritten_def is_flag_def
        increment_number_def initial_subprocessInspectorPort_def string_of_nat.simps digit_char_def
        del: launches.simps(2))

section \<open>Properties of the string-buffer terminal provider\<close>

lemma replace_all_append: "replace_all c r (xs @ ys) = replace_all c r xs @ replace_all c r ys"
  by (induction xs) simp_all

lemma normalizeOutput_append: "normalizeOutput (xs @ ys) = normalizeOutput xs @ normalizeOutput ys"
  by (simp add: normalizeOutput_def replace_all_append)

lemma normalizeOutput_escape: "normalizeOutput s = concat (map escape_char s)"
  by (induction s) (simp_all add: normalizeOutput_def escape_char_def replace_all_append)

lemma write_buffers:
  "toString (warningBuffer (provider_write d sev p)) =
     toString (warningBuffer p) @ (if sev = SeverityWarn then d else [])"
  "toString (errorBuffer (provider_write d sev p)) =
     toString (errorBuffer p) @ (if sev = SeverityError then d else [])"
  "toString (standardBuffer (provider_write d sev p)) =
     toString (standardBuffer p) @ (if sev \<noteq> SeverityWarn \<and> sev \<noteq> SeverityError then d else [])"
  by (cases sev; simp add: provider_write_def append_def toString_def)+

text \<open>
  Claim C10. After \<open>write(data, severity)\<close> each of \<open>getWarningOutput\<close>,
  \<open>getErrorOutput\<close> and \<open>getOutput\<close> returns what it returned before, followed, for
  exactly one of the three, by the data with each escape character replaced by \<open>[x]\<close>,
  each line feed by \<open>[n]\<close> and each carriage return by \<open>[r]\<close>: the warning output
  when the severity is warn, the error output when it is error, the standard output
  for every other severity.
\<close>

theorem write_appends_to_one_buffer:
  "getWarningOutput (provider_write d sev p) =
     getWarningOutput p @ (if sev = SeverityWarn then concat (map escape_char d) else [])
   \<and> getErrorOutput (provider_write d sev p) =
     getErrorOutput p @ (if sev = SeverityError then concat (map escape_char d) else [])
   \<and> getOutput (provider_write d sev p) =
     getOutput p @ (if sev \<noteq> SeverityWarn \<and> sev \<noteq> SeverityError then concat (map escape_char d) else [])"
  by (simp add: getWarningOutput_def getErrorOutput_def getOutput_def write_buffers
        normalizeOutput_append normalizeOutput_escape)

theorem write_appends_to_one_buffer_witness:
  "getWarningOutput (provider_write [CHR ''a'', CHR 0x0A, CHR 0x1B, CHR 0x0D] SeverityWarn
      (new_StringBufferTerminalProvider False)) = ''a[n][x][r]''
   \<and> getErrorOutput (provider_write [CHR ''a'', CHR 0x0A, CHR 0x1B, CHR 0x0D] SeverityWarn
      (new_StringBufferTerminalProvider False)) = []
   \<and> getOutput (provider_write [CHR ''a'', CHR 0x0A, CHR 0x1B, CHR 0x0D] SeverityWarn
      (new_StringBufferTerminalProvider False)) = []
   \<and> getOutput (provider_write ''ok'' (SeverityOther 4)
      (new_StringBufferTerminalProvider False)) = ''ok''"
  using write_appends_to_one_buffer [of "[CHR ''a'', CHR 0x0A, CHR 0x1B, CHR 0x0D]" SeverityWarn
      "new_StringBufferTerminalProvider False"]
    write_appends_to_one_buffer [of "''ok''" "SeverityOther 4" "new_StringBufferTerminalProvider False"]
  by (simp add: escape_char_def getWarningOutput_def getErrorOutput_def getOutput_def
        new_StringBufferTerminalProvider_def toString_def normalizeOutput_def)

end
